theory Spec2Isabelle
  imports Complex_Main
begin

section \<open>midisync: note extraction and timeline building\<close>

text \<open>
  The two scripts \<^verbatim>\<open>midisync.py\<close> and \<^verbatim>\<open>midisync_nogui.py\<close> read a MIDI file, pair
  note-on and note-off messages into timed notes, group notes that start close together,
  and lay one video clip per group on a timeline, with green filler in the silences.

  Times are Python floats in the scripts and exact reals here: the statements below are
  about exact arithmetic on seconds, except those about the loop \<open>bounce_loop_fl\<close>, which
  rounds its subtraction as Python does. Python integers are \<open>int\<close>. The MIDI file is
  represented by the list of messages that iterating over \<^verbatim>\<open>mido.MidiFile\<close> yields, the
  source video by its duration.
\<close>

subsection \<open>Messages and note events\<close>

text \<open>
  A message of the MIDI file, with the attributes the scripts read: the type
  (\<^verbatim>\<open>note_on\<close>, \<^verbatim>\<open>note_off\<close>, or any other), the note number, the velocity and the
  delta time in seconds.
\<close>

datatype msg =
    NoteOn int int real
  | NoteOff int int real
  | OtherMsg real

text \<open>The dictionaries appended to \<^verbatim>\<open>noteEvents\<close> and to \<^verbatim>\<open>groupedEvents\<close>.\<close>

record note_event =
  pitch :: int
  ev_start :: real
  ev_end :: real

record grouped_event =
  noteNum :: int
  startTime :: real
  endTime :: real

subsection \<open>extractNotes: the pass over the messages\<close>

record scan_state =
  currentTime :: real
  activeNotes :: "int \<rightharpoonup> real"
  noteEvents :: "note_event list"

text \<open>
  The branch for a note end: \<^verbatim>\<open>if msg.note in activeNotes\<close> emits the interval and
  deletes the key; else nothing happens.
\<close>

definition note_end :: "scan_state \<Rightarrow> int \<Rightarrow> scan_state" where
  "note_end s n =
     (case activeNotes s n of
        None \<Rightarrow> s
      | Some st \<Rightarrow>
          s\<lparr>noteEvents := noteEvents s @ [\<lparr>pitch = n, ev_start = st, ev_end = currentTime s\<rparr>],
            activeNotes := (activeNotes s)(n := None)\<rparr>)"

text \<open>One iteration of \<^verbatim>\<open>for msg in mid\<close>.\<close>

fun scan_msg :: "scan_state \<Rightarrow> msg \<Rightarrow> scan_state" where
  "scan_msg s (NoteOn n v dt) =
     (let s1 = s\<lparr>currentTime := currentTime s + dt\<rparr> in
      if v > 0 then s1\<lparr>activeNotes := (activeNotes s1)(n \<mapsto> currentTime s1)\<rparr>
      else if v = 0 then note_end s1 n
      else s1)"
| "scan_msg s (NoteOff n v dt) = note_end (s\<lparr>currentTime := currentTime s + dt\<rparr>) n"
| "scan_msg s (OtherMsg dt) = s\<lparr>currentTime := currentTime s + dt\<rparr>"

definition scan_init :: scan_state where
  "scan_init = \<lparr>currentTime = 0, activeNotes = Map.empty, noteEvents = []\<rparr>"

definition scan_msgs :: "scan_state \<Rightarrow> msg list \<Rightarrow> scan_state" where
  "scan_msgs s mid = foldl scan_msg s mid"

subsection \<open>extractNotes: grouping chords\<close>

record sweep_state =
  counter :: int
  lastStartTime :: "real option"
  groupedEvents :: "grouped_event list"

text \<open>
  One iteration of \<^verbatim>\<open>for event in noteEvents\<close>; \<open>counter\<close> is the variable
  \<^verbatim>\<open>noteNum\<close> of \<^verbatim>\<open>extractNotes\<close>.
\<close>

definition new_group :: "sweep_state \<Rightarrow> note_event \<Rightarrow> sweep_state" where
  "new_group s e =
     \<lparr>counter = counter s + 1,
      lastStartTime = Some (ev_start e),
      groupedEvents = groupedEvents s @
        [\<lparr>noteNum = counter s + 1, startTime = ev_start e, endTime = ev_end e\<rparr>]\<rparr>"

definition group_step :: "real \<Rightarrow> sweep_state \<Rightarrow> note_event \<Rightarrow> sweep_state" where
  "group_step chordThreshold s e =
     (case lastStartTime s of
        None \<Rightarrow> new_group s e
      | Some l \<Rightarrow> if ev_start e - l > chordThreshold then new_group s e else s)"

definition sweep_init :: sweep_state where
  "sweep_init = \<lparr>counter = 0, lastStartTime = None, groupedEvents = []\<rparr>"

definition sweep :: "real \<Rightarrow> note_event list \<Rightarrow> sweep_state" where
  "sweep chordThreshold evs = foldl (group_step chordThreshold) sweep_init evs"

definition groupEvents :: "real \<Rightarrow> note_event list \<Rightarrow> grouped_event list" where
  "groupEvents chordThreshold evs = groupedEvents (sweep chordThreshold evs)"

subsection \<open>extractNotes: the whole function, with what it prints\<close>

text \<open>
  The lines written to standard output, by what they report. The console is the only
  state outside the function that it touches; it is passed in and returned.
\<close>

datatype line =
    Blank
  | Text string
  | PathLine string string
  | ExtractedNotes nat
  | GroupedInto int
  | Row int real real
  | CreatingSynced nat

text \<open>
  The sorted note list of \<^verbatim>\<open>extractNotes\<close>: \<^verbatim>\<open>list.sort\<close> with a key is stable, as
  \<open>sort_key\<close> is.
\<close>

definition sortedNotes :: "msg list \<Rightarrow> note_event list" where
  "sortedNotes mid = sort_key ev_start (noteEvents (scan_msgs scan_init mid))"

text \<open>\<^verbatim>\<open>extractNotes\<close> of \<^verbatim>\<open>midisync.py\<close>.\<close>

definition extractNotes :: "string \<Rightarrow> msg list \<Rightarrow> real \<Rightarrow> line list \<Rightarrow> grouped_event list \<times> line list" where
  "extractNotes filePath mid chordThreshold console =
     (let evs = sortedNotes mid;
          s = sweep chordThreshold evs
      in (groupedEvents s,
          console @
          [Blank, PathLine ''MIDI file path: '' filePath, ExtractedNotes (length evs),
           GroupedInto (counter s), Blank, Text ''Note #, Start, End''] @
          map (\<lambda>g. Row (noteNum g) (startTime g) (endTime g)) (groupedEvents s)))"

text \<open>\<^verbatim>\<open>extractNotes\<close> of \<^verbatim>\<open>midisync_nogui.py\<close>; its path line has one more space.\<close>

definition extractNotes_nogui :: "string \<Rightarrow> msg list \<Rightarrow> real \<Rightarrow> line list \<Rightarrow> grouped_event list \<times> line list" where
  "extractNotes_nogui filePath mid chordThreshold console =
     (let evs = sortedNotes mid;
          s = sweep chordThreshold evs
      in (groupedEvents s,
          console @
          [Blank, PathLine ''MIDI file path : '' filePath, ExtractedNotes (length evs),
           GroupedInto (counter s), Blank, Text ''Note #, Start, End''] @
          map (\<lambda>g. Row (noteNum g) (startTime g) (endTime g)) (groupedEvents s)))"

subsection \<open>Clips\<close>

text \<open>
  The clips that \<^verbatim>\<open>createVideo\<close> asks moviepy for, as terms: one constructor per call.
  \<^item> \<open>ColorClip d\<close>: \<^verbatim>\<open>ColorClip(size, color=(0, 255, 0), duration=d)\<close>, the green filler;
  \<^item> \<open>SourceClip\<close>: \<^verbatim>\<open>sourceClip\<close>, the video file;
  \<^item> \<open>Subclip c t0 t1\<close>: \<^verbatim>\<open>c.subclip(t0, t1)\<close>;
  \<^item> \<open>TimeReversed c d\<close>:
    \<^verbatim>\<open>c.fx(... fl_time(lambda t: clipDuration - t - 1.0/clip.fps) ...).set_duration(d)\<close>;
  \<^item> \<open>Concat cs\<close>: \<^verbatim>\<open>concatenate_videoclips(cs)\<close>;
  \<^item> \<open>FlipLR c\<close>: \<^verbatim>\<open>c.fx(... fl_image(np.fliplr) ...)\<close>.
  In \<open>TimeReversed c d\<close> only the argument of \<^verbatim>\<open>set_duration\<close> is a value. The name
  \<^verbatim>\<open>clipDuration\<close> in the lambda is the variable of \<^verbatim>\<open>createVideo\<close>, which moviepy reads
  when it renders a frame, after the loops have run: the clip is then reversed about
  whatever the variable holds last, not about its own \<open>d\<close>. Which frames a clip shows is
  outside the model; a term records the calls and the duration they set.
  What moviepy does with a term it cannot realise (an empty concatenation, a subclip
  of a clip of negative duration) is outside the model as well.
\<close>

datatype clip =
    ColorClip real
  | SourceClip
  | Subclip clip real real
  | TimeReversed clip real
  | Concat "clip list"
  | FlipLR clip

text \<open>
  The duration moviepy gives each clip, for a source of duration \<open>src\<close>: a subclip lasts
  from \<open>t0\<close> to \<open>t1\<close>, a negative \<open>t1\<close> counting from the end of the clip; a
  concatenation lasts the sum of its parts; a flip keeps the duration.
\<close>

fun clip_duration :: "real \<Rightarrow> clip \<Rightarrow> real" where
  "clip_duration src (ColorClip d) = d"
| "clip_duration src SourceClip = src"
| "clip_duration src (Subclip c t0 t1) =
     (if t1 < 0 then clip_duration src c + t1 else t1) - t0"
| "clip_duration src (TimeReversed c d) = d"
| "clip_duration src (Concat cs) = sum_list (map (clip_duration src) cs)"
| "clip_duration src (FlipLR c) = clip_duration src c"


subsection \<open>createVideo: one clip per grouped event\<close>

record builder =
  videoClips :: "clip list"
  currentPos :: real

definition builder_init :: builder where
  "builder_init = \<lparr>videoClips = [], currentPos = 0\<rparr>"

text \<open>The green clip appended when \<^verbatim>\<open>startTime > currentPos\<close>.\<close>

definition add_gap :: "builder \<Rightarrow> grouped_event \<Rightarrow> clip list" where
  "add_gap b g =
     (if startTime g > currentPos b
      then videoClips b @ [ColorClip (startTime g - currentPos b)]
      else videoClips b)"

text \<open>\<^verbatim>\<open>if noteNum % 2 == 0\<close>: the flip of even-numbered notes.\<close>

definition flip_even :: "int \<Rightarrow> clip \<Rightarrow> clip" where
  "flip_even n c = (if n mod 2 = 0 then FlipLR c else c)"

text \<open>
  Python's floats are IEEE 754 binary64 numbers, and a float subtraction returns the
  exact difference rounded to the nearest of them, a tie going to the even one. \<open>fl\<close>
  is that rounding, to 53 significant bits: \<open>rne\<close> rounds to the nearest integer, ties to
  even, and \<open>fl x\<close> rounds \<open>x\<close> to the nearest multiple of \<open>2 ^ (e - 52)\<close>, where
  \<open>2 ^ e \<le> \<bar>x\<bar> < 2 ^ (e + 1)\<close>. The exponent range is not modelled: the difference of
  two binary64 numbers neither overflows nor is rounded when it is subnormal.
\<close>

definition rne :: "real \<Rightarrow> int" where
  "rne y = (let f = \<lfloor>y\<rfloor> in
     if y - of_int f < 1/2 then f
     else if 1/2 < y - of_int f then f + 1
     else if even f then f else f + 1)"

definition fl :: "real \<Rightarrow> real" where
  "fl x = (if x = 0 then 0
           else (let q = 2 powr (of_int \<lfloor>log 2 \<bar>x\<bar>\<rfloor> - 52)
                 in of_int (rne (x / q)) * q))"

text \<open>
  The \<^verbatim>\<open>while remainingDuration > 0\<close> loop of \<^verbatim>\<open>midisync.py\<close>, with the subtraction of
  \<^verbatim>\<open>remainingDuration -= clipDuration\<close> as the parameter \<open>sub\<close>. It need not end (a source
  of duration 0 never shortens what remains), so it returns an option: \<open>None\<close> is a
  loop that runs forever.
\<close>

partial_function (option) bounce_loop_with ::
  "(real \<Rightarrow> real \<Rightarrow> real) \<Rightarrow> real \<Rightarrow> real \<Rightarrow> bool \<Rightarrow> clip list \<Rightarrow> clip list option" where
  "bounce_loop_with sub srcDuration remainingDuration forward clips =
     (if remainingDuration > 0 then
        (let clipDuration = min remainingDuration srcDuration;
             clipToAdd = (if forward then Subclip SourceClip 0 clipDuration
                          else TimeReversed (Subclip SourceClip 0 clipDuration) clipDuration)
         in bounce_loop_with sub srcDuration (sub remainingDuration clipDuration) (\<not> forward)
              (clips @ [clipToAdd]))
      else Some clips)"

text \<open>The loop as Python runs it, on floats: the difference is rounded.\<close>

definition bounce_loop_fl :: "real \<Rightarrow> real \<Rightarrow> bool \<Rightarrow> clip list \<Rightarrow> clip list option" where
  "bounce_loop_fl = bounce_loop_with (\<lambda>a b. fl (a - b))"

text \<open>
  The loop in exact arithmetic. The builders below use this one: like the sums of the
  delta times and the differences \<open>endTime - startTime\<close>, which are exact reals
  throughout, it leaves the rounding out, and what is proved of the builders holds of the
  scripts up to rounding.
\<close>

definition bounce_loop :: "real \<Rightarrow> real \<Rightarrow> bool \<Rightarrow> clip list \<Rightarrow> clip list option" where
  "bounce_loop = bounce_loop_with (\<lambda>a b. a - b)"

text \<open>\<^verbatim>\<open>noteClip\<close> of \<^verbatim>\<open>midisync.py\<close>, before the flip: bounce when the source is too short.\<close>

definition noteClip :: "real \<Rightarrow> real \<Rightarrow> clip option" where
  "noteClip srcDuration duration =
     (if srcDuration < duration
      then (case bounce_loop srcDuration duration True [] of
              None \<Rightarrow> None
            | Some clips \<Rightarrow> Some (Concat clips))
      else Some (Subclip SourceClip 0 duration))"

text \<open>One iteration of \<^verbatim>\<open>for event in noteEvents\<close> in \<^verbatim>\<open>midisync.py\<close>.\<close>

definition add_event :: "real \<Rightarrow> builder \<Rightarrow> grouped_event \<Rightarrow> builder option" where
  "add_event srcDuration b g =
     (let duration = endTime g - startTime g;
          withGap = add_gap b g
      in case noteClip srcDuration duration of
           None \<Rightarrow> None
         | Some c \<Rightarrow>
             Some \<lparr>videoClips = withGap @ [flip_even (noteNum g) c], currentPos = endTime g\<rparr>)"

fun build_from :: "real \<Rightarrow> builder \<Rightarrow> grouped_event list \<Rightarrow> builder option" where
  "build_from srcDuration b [] = Some b"
| "build_from srcDuration b (g # gs) =
     (case add_event srcDuration b g of
        None \<Rightarrow> None
      | Some b' \<Rightarrow> build_from srcDuration b' gs)"

text \<open>The list \<^verbatim>\<open>videoClips\<close> after the loop of \<^verbatim>\<open>midisync.py\<close>.\<close>

definition build :: "real \<Rightarrow> grouped_event list \<Rightarrow> clip list option" where
  "build srcDuration gs = map_option videoClips (build_from srcDuration builder_init gs)"

subsection \<open>createVideo of midisync\_nogui.py: loop instead of bounce\<close>

datatype py_error = ZeroDivisionError | ValueError

text \<open>
  \<^verbatim>\<open>noteClip\<close> of \<^verbatim>\<open>midisync_nogui.py\<close>, before the flip. The division is Python's float
  division, which raises on a zero divisor; a list times a negative number is empty.
\<close>

definition noteClip_nogui :: "real \<Rightarrow> real \<Rightarrow> py_error + clip" where
  "noteClip_nogui srcDuration duration =
     (if srcDuration < duration then
        (if srcDuration = 0 then Inl ZeroDivisionError
         else (let numLoops = \<lceil>duration / srcDuration\<rceil>;
                   loopedClip = Concat (replicate (nat numLoops) SourceClip)
               in Inr (Subclip loopedClip 0 duration)))
      else Inr (Subclip SourceClip 0 duration))"

definition add_event_nogui :: "real \<Rightarrow> builder \<Rightarrow> grouped_event \<Rightarrow> py_error + builder" where
  "add_event_nogui srcDuration b g =
     (let duration = endTime g - startTime g;
          withGap = add_gap b g
      in case noteClip_nogui srcDuration duration of
           Inl e \<Rightarrow> Inl e
         | Inr c \<Rightarrow>
             Inr \<lparr>videoClips = withGap @ [flip_even (noteNum g) c], currentPos = endTime g\<rparr>)"

fun build_from_nogui :: "real \<Rightarrow> builder \<Rightarrow> grouped_event list \<Rightarrow> py_error + builder" where
  "build_from_nogui srcDuration b [] = Inr b"
| "build_from_nogui srcDuration b (g # gs) =
     (case add_event_nogui srcDuration b g of
        Inl e \<Rightarrow> Inl e
      | Inr b' \<Rightarrow> build_from_nogui srcDuration b' gs)"

definition build_nogui :: "real \<Rightarrow> grouped_event list \<Rightarrow> py_error + clip list" where
  "build_nogui srcDuration gs = map_sum id videoClips (build_from_nogui srcDuration builder_init gs)"

subsection \<open>createVideo and the command line\<close>

text \<open>
  How a run ends: the usage message and exit status 1, an uncaught exception, the early
  return on an empty extraction, or the clip list handed to \<^verbatim>\<open>concatenate_videoclips\<close>
  and the frame rate handed to \<^verbatim>\<open>write_videofile\<close>.
\<close>

datatype outcome =
    UsageExit
  | Raised py_error
  | NoNotesFound
  | Written "clip list" int

text \<open>
  \<^verbatim>\<open>createVideo\<close> of \<^verbatim>\<open>midisync.py\<close>: the chord threshold is 0.1 and the frame rate 30.
  \<open>None\<close> is a run that never returns.
\<close>

definition createVideo :: "string \<Rightarrow> msg list \<Rightarrow> real \<Rightarrow> line list \<Rightarrow> (outcome \<times> line list) option" where
  "createVideo midiPath mid srcDuration console =
     (let (noteEvents, console1) = extractNotes midiPath mid 0.1 console in
      if noteEvents = [] then Some (NoNotesFound, console1 @ [Text ''No notes found :(''])
      else (case build srcDuration noteEvents of
              None \<Rightarrow> None
            | Some clips \<Rightarrow>
                Some (Written clips 30,
                      console1 @ [Blank, CreatingSynced (length clips), Blank, Blank])))"

text \<open>\<^verbatim>\<open>createVideo\<close> of \<^verbatim>\<open>midisync_nogui.py\<close>, with its two optional parameters.\<close>

definition createVideo_nogui ::
  "string \<Rightarrow> msg list \<Rightarrow> real \<Rightarrow> real \<Rightarrow> int \<Rightarrow> line list \<Rightarrow> outcome \<times> line list" where
  "createVideo_nogui midiPath mid srcDuration chordThreshold fps console =
     (let (noteEvents, console1) = extractNotes_nogui midiPath mid chordThreshold console in
      if noteEvents = [] then (NoNotesFound, console1 @ [Text ''No notes found :(''])
      else (case build_nogui srcDuration noteEvents of
              Inl e \<Rightarrow> (Raised e, console1)
            | Inr clips \<Rightarrow>
                (Written clips fps,
                 console1 @ [Blank, CreatingSynced (length clips), Blank, Blank,
                   Text ''Make sure when you make the visuals:'',
                   Text ''- Crop the video to the proper size'',
                   Text ''- Key out the greenscreen'', Blank])))"

text \<open>
  The files and the conversions of the command line are parameters: what the MIDI file
  at a path decodes to, the duration of the video at a path, and Python's \<^verbatim>\<open>int\<close> and
  \<^verbatim>\<open>float\<close> on a string, \<open>None\<close> where they raise \<^verbatim>\<open>ValueError\<close>. A threshold is a
  real here: the strings that \<^verbatim>\<open>float\<close> parses to an infinity or to a NaN are left out.
\<close>

record env =
  load_midi :: "string \<Rightarrow> msg list"
  load_clip :: "string \<Rightarrow> real"
  py_int :: "string \<Rightarrow> int option"
  py_float :: "string \<Rightarrow> real option"

definition usage :: "line list" where
  "usage = [Blank,
     Text ''Usage: python3 midisync_nogui.py <midi_file> <video_clip> <output_file> [fps] [chord_threshold]'',
     Blank, Text ''Example:'',
     Text ''  python3 midisync_nogui.py input.mid video.mp4 output.mp4'',
     Text ''  python3 midisync_nogui.py input.mid video.mp4 output.mp4 60 0.05'',
     Blank]"

text \<open>
  The \<^verbatim>\<open>__main__\<close> block of \<^verbatim>\<open>midisync_nogui.py\<close>; \<open>argv\<close> is \<^verbatim>\<open>sys.argv\<close>, the script
  name first.
\<close>

definition main_nogui :: "env \<Rightarrow> string list \<Rightarrow> line list \<Rightarrow> outcome \<times> line list" where
  "main_nogui E argv console =
     (if length argv \<ge> 4 then
        (case (if length argv > 4 then py_int E (argv ! 4) else Some 30) of
           None \<Rightarrow> (Raised ValueError, console)
         | Some fps \<Rightarrow>
            (case (if length argv > 5 then py_float E (argv ! 5) else Some 0.1) of
               None \<Rightarrow> (Raised ValueError, console)
             | Some chord_threshold \<Rightarrow>
                 createVideo_nogui (argv ! 1) (load_midi E (argv ! 1)) (load_clip E (argv ! 2))
                   chord_threshold fps console))
      else (UsageExit, console @ usage))"

subsection \<open>The segments of the specification\<close>

text \<open>
  The specification describes the output as segments: a filler or a content segment,
  with a duration, a flip flag and a source style. These read a clip as such a segment.
  A filler is the green clip; a trimmed source is a subclip of the source itself, a
  looped source a subclip of a concatenation, a bounced source a concatenation of chunks.
\<close>

datatype kind = FILLER | CONTENT

datatype style = TRIM | LOOP | BOUNCE

fun kind_of :: "clip \<Rightarrow> kind" where
  "kind_of (ColorClip d) = FILLER"
| "kind_of c = CONTENT"

fun flipped :: "clip \<Rightarrow> bool" where
  "flipped (FlipLR c) = True"
| "flipped c = False"

fun sourceStyle :: "clip \<Rightarrow> style option" where
  "sourceStyle (FlipLR c) = sourceStyle c"
| "sourceStyle (Subclip SourceClip t0 t1) = Some TRIM"
| "sourceStyle (Subclip (Concat cs) t0 t1) = Some LOOP"
| "sourceStyle (Concat cs) = Some BOUNCE"
| "sourceStyle c = None"

definition contents :: "clip list \<Rightarrow> clip list" where
  "contents cs = filter (\<lambda>c. kind_of c = CONTENT) cs"

text \<open>
  The chunk that the specification's bounce variant puts at position \<open>i\<close> (from 0) of a
  content of duration \<open>d\<close>: \<open>d - i * src\<close> remains, the chunk lasts the smaller of that
  and the source, and every other chunk, starting with the second, is time-reversed.
\<close>

definition bounce_chunk :: "real \<Rightarrow> real \<Rightarrow> bool \<Rightarrow> nat \<Rightarrow> clip" where
  "bounce_chunk src d fwd i =
     (let c = min (d - real i * src) src
      in if even i = fwd then Subclip SourceClip 0 c
         else TimeReversed (Subclip SourceClip 0 c) c)"


subsection \<open>A run of the bounce loop on floats\<close>



section \<open>Properties of the grouping\<close>








section \<open>The bounce loop ends\<close>

lemma ceiling_quotient_step:
  fixes r s :: real
  assumes "0 < s" "s < r"
  shows "nat \<lceil>(r - s) / s\<rceil> = nat \<lceil>r / s\<rceil> - 1"
proof -
  have "(r - s) / s = r / s - 1" using assms by (simp add: field_simps)
  then have "\<lceil>(r - s) / s\<rceil> = \<lceil>r / s\<rceil> - 1" by simp
  then show ?thesis by simp
qed

lemma ceiling_quotient_one:
  fixes r s :: real
  assumes "0 < s" "0 < r" "r \<le> s"
  shows "nat \<lceil>r / s\<rceil> = 1"
proof -
  have "0 < r / s" "r / s \<le> 1" using assms by simp_all
  then have "\<lceil>r / s\<rceil> = 1" by (simp add: ceiling_unique)
  then show ?thesis by simp
qed

lemma ceiling_quotient_zero:
  fixes r s :: real
  assumes "0 < s" "nat \<lceil>r / s\<rceil> = 0"
  shows "r \<le> 0"
proof -
  have "\<lceil>r / s\<rceil> \<le> 0" using assms(2) by simp
  then have "r / s \<le> 0" by (simp add: ceiling_le_zero)
  then show ?thesis using assms(1) by (simp add: divide_le_0_iff)
qed


lemma bounce_loop_with_simps:
  "bounce_loop_with sub src r fwd clips =
     (if r > 0 then
        bounce_loop_with sub src (sub r (min r src)) (\<not> fwd)
          (clips @ [if fwd then Subclip SourceClip 0 (min r src)
                    else TimeReversed (Subclip SourceClip 0 (min r src)) (min r src)])
      else Some clips)"
  by (subst bounce_loop_with.simps) (simp add: Let_def)

text \<open>
  From any state of the loop with a positive source duration, when the subtractions the
  loop makes are exact: it returns after \<open>\<lceil>r / src\<rceil>\<close> more chunks, which are the chunks
  of the specification and last \<open>r\<close> together.
\<close>

lemma bounce_loop_with_total:
  assumes "0 < src" and zero: "\<And>x. sub x x = 0"
  shows "nat \<lceil>r / src\<rceil> = k \<Longrightarrow>
    \<forall>j. real (Suc j) * src < r \<longrightarrow> sub (r - real j * src) src = r - real j * src - src \<Longrightarrow>
    \<exists>chunks. bounce_loop_with sub src r fwd acc = Some (acc @ chunks) \<and>
      length chunks = k \<and>
      sum_list (map (clip_duration src) chunks) = max r 0 \<and>
      (\<forall>i<k. chunks ! i = bounce_chunk src r fwd i)"
proof (induction k arbitrary: r fwd acc)
  case 0
  then have "r \<le> 0" using assms(1) ceiling_quotient_zero by blast
  then show ?case by (subst bounce_loop_with_simps) simp
next
  case (Suc k)
  have rpos: "0 < r"
  proof (rule ccontr)
    assume "\<not> 0 < r"
    then have "r / src \<le> 0" using assms(1) by (simp add: divide_le_0_iff)
    then have "\<lceil>r / src\<rceil> \<le> 0" by (simp add: ceiling_le_zero)
    then show False using Suc.prems(1) by simp
  qed
  define c where "c = (if fwd then Subclip SourceClip 0 (min r src)
                       else TimeReversed (Subclip SourceClip 0 (min r src)) (min r src))"
  have unfold: "bounce_loop_with sub src r fwd acc =
      bounce_loop_with sub src (sub r (min r src)) (\<not> fwd) (acc @ [c])"
    using rpos by (subst bounce_loop_with_simps) (simp add: c_def)
  define m where "m = min r src"
  have "\<not> m < 0" using rpos assms(1) by (simp add: m_def)
  then have "clip_duration src (if fwd then Subclip SourceClip 0 m
                       else TimeReversed (Subclip SourceClip 0 m) m) = m" by simp
  then have cdur: "clip_duration src c = min r src" by (simp only: c_def m_def)
  have c0: "c = bounce_chunk src r fwd 0" by (simp add: bounce_chunk_def c_def Let_def)
  show ?case
  proof (cases "r \<le> src")
    case True
    then have k0: "k = 0" using ceiling_quotient_one[OF assms(1) rpos True] Suc.prems(1) by simp
    have "sub r (min r src) = 0" using True zero by simp
    then have "bounce_loop_with sub src (sub r (min r src)) (\<not> fwd) (acc @ [c]) = Some (acc @ [c])"
      by (subst bounce_loop_with_simps) simp
    with unfold have "bounce_loop_with sub src r fwd acc = Some (acc @ [c])" by simp
    then show ?thesis using k0 cdur True rpos c0 by (intro exI[of _ "[c]"]) simp
  next
    case False
    then have lt: "src < r" by simp
    then have m: "min r src = src" by simp
    have "real (Suc 0) * src < r" using lt by simp
    with Suc.prems(2) have "sub (r - real 0 * src) src = r - real 0 * src - src" by blast
    then have exact: "sub r src = r - src" by simp
    have k: "nat \<lceil>(r - src) / src\<rceil> = k"
      using ceiling_quotient_step[OF assms(1) lt] Suc.prems(1) by simp
    have rest: "\<forall>j. real (Suc j) * src < r - src \<longrightarrow>
        sub (r - src - real j * src) src = r - src - real j * src - src"
    proof (intro allI impI)
      fix j assume "real (Suc j) * src < r - src"
      then have "real (Suc (Suc j)) * src < r" by (simp add: algebra_simps)
      with Suc.prems(2)
      have h: "sub (r - real (Suc j) * src) src = r - real (Suc j) * src - src" by blast
      have eq: "r - real (Suc j) * src = r - src - real j * src" by (simp add: algebra_simps)
      from h show "sub (r - src - real j * src) src = r - src - real j * src - src"
        by (simp only: eq)
    qed
    from Suc.IH[OF k rest, of "\<not> fwd" "acc @ [c]"] obtain chunks where
      ch: "bounce_loop_with sub src (r - src) (\<not> fwd) (acc @ [c]) = Some ((acc @ [c]) @ chunks)"
        "length chunks = k"
        "sum_list (map (clip_duration src) chunks) = max (r - src) 0"
        "\<forall>i<k. chunks ! i = bounce_chunk src (r - src) (\<not> fwd) i"
      by blast
    have shift: "bounce_chunk src (r - src) (\<not> fwd) i = bounce_chunk src r fwd (Suc i)" for i
      by (simp add: bounce_chunk_def Let_def algebra_simps)
    have idx: "\<forall>i<Suc k. (c # chunks) ! i = bounce_chunk src r fwd i"
    proof (intro allI impI)
      fix i assume "i < Suc k"
      then show "(c # chunks) ! i = bounce_chunk src r fwd i"
        using ch(4) c0 shift by (cases i) auto
    qed
    have "bounce_loop_with sub src r fwd acc = Some (acc @ (c # chunks))"
      using unfold ch(1) m exact by simp
    moreover have "length (c # chunks) = Suc k" using ch(2) by simp
    moreover have "sum_list (map (clip_duration src) (c # chunks)) = max r 0"
      using ch(3) cdur m lt assms(1) by simp
    ultimately show ?thesis using idx by blast
  qed
qed

text \<open>In exact arithmetic every subtraction is exact, so the loop returns.\<close>

lemma bounce_loop_total:
  assumes "0 < src"
  shows "nat \<lceil>r / src\<rceil> = k \<Longrightarrow>
    \<exists>chunks. bounce_loop src r fwd acc = Some (acc @ chunks) \<and>
      length chunks = k \<and>
      sum_list (map (clip_duration src) chunks) = max r 0 \<and>
      (\<forall>i<k. chunks ! i = bounce_chunk src r fwd i)"
  unfolding bounce_loop_def
  by (rule bounce_loop_with_total[OF assms]) simp_all

section \<open>Rounding in the bounce loop\<close>

















lemma floor_log2_above_one:
  fixes x :: real
  assumes "2 ^ k \<le> x" "x < 2 * 2 ^ k"
  shows "\<lfloor>log 2 x\<rfloor> = int k"
proof -
  have "(0::real) < 2 ^ k" by simp
  then have xpos: "0 < x" using assms(1) by linarith
  have p: "(2::real) powr (real k) = 2 ^ k"
    by (simp add: powr_realpow)
  have "(2::real) powr (real k + 1) = 2 powr (real k) * 2 powr 1"
    by (rule powr_add)
  then have p1: "(2::real) powr (real k + 1) = 2 * 2 ^ k"
    by (simp only: p) simp
  have "(2::real) powr (real k) \<le> x" using assms(1) p by simp
  then have "real k \<le> log 2 x" using xpos by (simp add: le_log_iff)
  moreover have "x < (2::real) powr (real k + 1)" using assms(2) p1 by simp
  then have "log 2 x < real k + 1" using xpos by (simp add: log_less_iff)
  ultimately have "real_of_int (int k) \<le> log 2 x" "log 2 x < real_of_int (int k) + 1"
    by simp_all
  then show ?thesis by (rule floor_unique)
qed

lemma fl_above:
  assumes "2 ^ (k + 52) \<le> \<bar>x\<bar>" "\<bar>x\<bar> < 2 * 2 ^ (k + 52)"
  shows "fl x = of_int (rne (x / 2 ^ k)) * 2 ^ k"
proof -
  have "(0::real) < 2 ^ (k + 52)" by simp
  then have "0 < \<bar>x\<bar>" using assms(1) by linarith
  then have nz: "x \<noteq> 0" by simp
  have e: "\<lfloor>log 2 \<bar>x\<bar>\<rfloor> = int (k + 52)" using floor_log2_above_one[OF assms] .
  have "real_of_int (int (k + 52)) - 52 = real k" by simp
  then have q: "(2::real) powr (real_of_int (int (k + 52)) - 52) = 2 ^ k"
    by (simp only: powr_realpow[OF zero_less_numeral])
  show ?thesis using nz unfolding fl_def e Let_def q by simp
qed

lemma fl_absorbs: "fl (2 ^ 57 - 1) = 2 ^ 57"
proof -
  have "fl (2 ^ 57 - 1) = of_int (rne ((2 ^ 57 - 1) / 2 ^ 4)) * 2 ^ 4"
    by (rule fl_above) simp_all
  also have "\<dots> = 2 ^ 57"
    by (simp add: rne_def Let_def)
  finally show ?thesis .
qed


text \<open>
  A state of the loop in which the subtraction gives back what remained is never left:
  on floats the loop need not return, even with a positive source duration. A content
  of \<open>2 ^ 57\<close> seconds and a source of one second is such a state from the start.
\<close>

lemma bounce_loop_with_stuck:
  assumes "bounce_loop_with sub src r fwd acc = Some y"
  shows "\<not> (0 < r \<and> sub r (min r src) = r)"
  using assms
proof (induction sub src r fwd acc y rule: bounce_loop_with.raw_induct[rotated, consumes 1])
  case (1 loop sub src r fwd acc y)
  show ?case
  proof
    assume stuck: "0 < r \<and> sub r (min r src) = r"
    with 1(2) have "\<exists>c. loop sub src r (\<not> fwd) (acc @ [c]) = Some y"
      by (auto simp: Let_def)
    then obtain c where c: "loop sub src r (\<not> fwd) (acc @ [c]) = Some y" ..
    have "\<not> (0 < r \<and> sub r (min r src) = r)" by (rule 1(1)[OF c])
    with stuck show False by simp
  qed
qed

lemma float_loop_never_returns: "bounce_loop_fl 1 (2 ^ 57) True [] = None"
proof (cases "bounce_loop_fl 1 (2 ^ 57) True []")
  case None
  then show ?thesis .
next
  case (Some y)
  then have "bounce_loop_with (\<lambda>a b. fl (a - b)) 1 (2 ^ 57) True [] = Some y"
    by (simp add: bounce_loop_fl_def)
  from bounce_loop_with_stuck[OF this] have "fl (2 ^ 57 - 1) \<noteq> 2 ^ 57" by simp
  with fl_absorbs show ?thesis by simp
qed

section \<open>Claims about the grouping\<close>




section \<open>Claims about the bounce loop\<close>




section \<open>Properties of the builders\<close>

lemma filler_not_flipped: "kind_of c = FILLER \<Longrightarrow> \<not> flipped c"
  by (cases c) simp_all

lemma flip_even_kind: "kind_of c = CONTENT \<Longrightarrow> kind_of (flip_even n c) = CONTENT"
  by (simp add: flip_even_def)

lemma flip_even_flipped: "\<not> flipped c \<Longrightarrow> flipped (flip_even n c) = (n mod 2 = 0)"
  by (simp add: flip_even_def)

lemma flip_even_style: "sourceStyle (flip_even n c) = sourceStyle c"
  by (simp add: flip_even_def)

lemma flip_even_duration: "clip_duration src (flip_even n c) = clip_duration src c"
  by (simp add: flip_even_def)

lemma contents_Nil: "contents [] = []"
  by (simp add: contents_def)

lemma contents_snoc:
  "contents (xs @ [c]) = contents xs @ (if kind_of c = CONTENT then [c] else [])"
  by (simp add: contents_def)

lemma contents_add_gap: "contents (add_gap b g) = contents (videoClips b)"
  by (simp add: contents_def add_gap_def)


lemma noteClip_shape:
  assumes "noteClip src d = Some c"
  shows "kind_of c = CONTENT \<and> \<not> flipped c \<and>
         sourceStyle c = Some (if src < d then BOUNCE else TRIM) \<and>
         (\<not> src < d \<longrightarrow> c = Subclip SourceClip 0 d)"
  using assms by (auto simp: noteClip_def split: if_splits option.splits)

lemma noteClip_nogui_shape:
  assumes "noteClip_nogui src d = Inr c"
  shows "kind_of c = CONTENT \<and> \<not> flipped c \<and>
         sourceStyle c = Some (if src < d then LOOP else TRIM) \<and>
         (\<not> src < d \<longrightarrow> c = Subclip SourceClip 0 d)"
  using assms by (auto simp: noteClip_nogui_def Let_def split: if_splits)

lemma noteClip_total:
  assumes "0 < src"
  shows "\<exists>c. noteClip src d = Some c \<and> (0 \<le> d \<longrightarrow> clip_duration src c = d)"
proof (cases "src < d")
  case True
  from bounce_loop_total[OF assms, of d "nat \<lceil>d / src\<rceil>" True "[]"] obtain chunks where
    "bounce_loop src d True [] = Some chunks"
    "sum_list (map (clip_duration src) chunks) = max d 0"
    by auto
  then show ?thesis using True by (simp add: noteClip_def)
next
  case False
  then show ?thesis by (simp add: noteClip_def)
qed

lemma noteClip_nogui_total:
  assumes "src \<noteq> 0"
  shows "\<exists>c. noteClip_nogui src d = Inr c \<and> (0 \<le> d \<longrightarrow> clip_duration src c = d)"
  using assms by (simp add: noteClip_nogui_def Let_def)

lemma add_event_result:
  assumes "add_event src b g = Some b'"
  shows "\<exists>c. noteClip src (endTime g - startTime g) = Some c \<and>
             videoClips b' = add_gap b g @ [flip_even (noteNum g) c] \<and>
             currentPos b' = endTime g"
  using assms by (auto simp: add_event_def Let_def split: option.splits)

lemma add_event_nogui_result:
  assumes "add_event_nogui src b g = Inr b'"
  shows "\<exists>c. noteClip_nogui src (endTime g - startTime g) = Inr c \<and>
             videoClips b' = add_gap b g @ [flip_even (noteNum g) c] \<and>
             currentPos b' = endTime g"
  using assms by (auto simp: add_event_nogui_def Let_def split: sum.splits)

lemma add_event_total:
  assumes "0 < src"
  shows "\<exists>b'. add_event src b g = Some b'"
  using noteClip_total[OF assms, of "endTime g - startTime g"]
  by (auto simp: add_event_def Let_def)

lemma add_event_nogui_total:
  assumes "src \<noteq> 0"
  shows "\<exists>b'. add_event_nogui src b g = Inr b'"
  using noteClip_nogui_total[OF assms, of "endTime g - startTime g"]
  by (auto simp: add_event_nogui_def Let_def)

lemma build_from_total:
  assumes "0 < src"
  shows "\<exists>b'. build_from src b gs = Some b'"
proof (induction gs arbitrary: b)
  case Nil
  show ?case by simp
next
  case (Cons g gs)
  from add_event_total[OF assms, of b g] obtain b1 where "add_event src b g = Some b1" ..
  then show ?case using Cons.IH[of b1] by simp
qed

lemma build_from_nogui_total:
  assumes "src \<noteq> 0"
  shows "\<exists>b'. build_from_nogui src b gs = Inr b'"
proof (induction gs arbitrary: b)
  case Nil
  show ?case by simp
next
  case (Cons g gs)
  from add_event_nogui_total[OF assms, of b g] obtain b1 where "add_event_nogui src b g = Inr b1" ..
  then show ?case using Cons.IH[of b1] by simp
qed

lemma add_event_contents:
  assumes "add_event src b g = Some b'"
  shows "map flipped (contents (videoClips b')) =
           map flipped (contents (videoClips b)) @ [noteNum g mod 2 = 0]"
proof -
  from add_event_result[OF assms] obtain c where
    c: "noteClip src (endTime g - startTime g) = Some c"
       "videoClips b' = add_gap b g @ [flip_even (noteNum g) c]"
    by blast
  from noteClip_shape[OF c(1)] have k: "kind_of c = CONTENT" "\<not> flipped c" by simp_all
  have "contents (videoClips b') = contents (videoClips b) @ [flip_even (noteNum g) c]"
    using flip_even_kind[OF k(1), of "noteNum g"]
    by (simp add: c(2) contents_snoc contents_add_gap)
  moreover have "flipped (flip_even (noteNum g) c) = (noteNum g mod 2 = 0)"
    using flip_even_flipped[OF k(2), of "noteNum g"] .
  ultimately show ?thesis by simp
qed

lemma add_event_nogui_contents:
  assumes "add_event_nogui src b g = Inr b'"
  shows "map flipped (contents (videoClips b')) =
           map flipped (contents (videoClips b)) @ [noteNum g mod 2 = 0]"
proof -
  from add_event_nogui_result[OF assms] obtain c where
    c: "noteClip_nogui src (endTime g - startTime g) = Inr c"
       "videoClips b' = add_gap b g @ [flip_even (noteNum g) c]"
    by blast
  from noteClip_nogui_shape[OF c(1)] have k: "kind_of c = CONTENT" "\<not> flipped c" by simp_all
  have "contents (videoClips b') = contents (videoClips b) @ [flip_even (noteNum g) c]"
    using flip_even_kind[OF k(1), of "noteNum g"]
    by (simp add: c(2) contents_snoc contents_add_gap)
  moreover have "flipped (flip_even (noteNum g) c) = (noteNum g mod 2 = 0)"
    using flip_even_flipped[OF k(2), of "noteNum g"] .
  ultimately show ?thesis by simp
qed

lemma build_from_flips:
  "build_from src b gs = Some b' \<Longrightarrow>
   map flipped (contents (videoClips b')) =
     map flipped (contents (videoClips b)) @ map (\<lambda>g. noteNum g mod 2 = 0) gs"
proof (induction gs arbitrary: b)
  case Nil
  then show ?case by simp
next
  case (Cons g gs)
  from Cons.prems obtain b1 where b1: "add_event src b g = Some b1" "build_from src b1 gs = Some b'"
    by (cases "add_event src b g") simp_all
  show ?case using add_event_contents[OF b1(1)] Cons.IH[OF b1(2)] by simp
qed

lemma build_from_nogui_flips:
  "build_from_nogui src b gs = Inr b' \<Longrightarrow>
   map flipped (contents (videoClips b')) =
     map flipped (contents (videoClips b)) @ map (\<lambda>g. noteNum g mod 2 = 0) gs"
proof (induction gs arbitrary: b)
  case Nil
  then show ?case by simp
next
  case (Cons g gs)
  from Cons.prems obtain b1 where b1: "add_event_nogui src b g = Inr b1" "build_from_nogui src b1 gs = Inr b'"
    by (cases "add_event_nogui src b g") simp_all
  show ?case using add_event_nogui_contents[OF b1(1)] Cons.IH[OF b1(2)] by simp
qed

lemma build_Some: "build src gs = Some clips \<longleftrightarrow>
   (\<exists>b'. build_from src builder_init gs = Some b' \<and> videoClips b' = clips)"
  by (auto simp: build_def)

lemma build_nogui_Inr: "build_nogui src gs = Inr clips \<longleftrightarrow>
   (\<exists>b'. build_from_nogui src builder_init gs = Inr b' \<and> videoClips b' = clips)"
  by (cases "build_from_nogui src builder_init gs") (auto simp: build_nogui_def)

text \<open>The definitions that evaluate a builder on a given list of groups.\<close>

lemmas build_simps = build_def builder_init_def add_event_def add_gap_def noteClip_def
  flip_even_def Let_def

lemmas build_nogui_simps = build_nogui_def builder_init_def add_event_nogui_def add_gap_def
  noteClip_nogui_def flip_even_def Let_def

section \<open>Claims about the flip\<close>

text \<open>
  Claim C6. Whenever a builder returns, its content clips are, in order, one per grouped
  event, and the clip of a group is flipped exactly when the group's own number is even,
  whatever fillers stand between them and whatever the numbers are; a filler is never
  flipped. For a positive source duration both builders return.
\<close>

theorem flip_follows_group_index:
  "(\<forall>clips. build src gs = Some clips \<longrightarrow>
      map flipped (contents clips) = map (\<lambda>g. noteNum g mod 2 = 0) gs \<and>
      (\<forall>c\<in>set clips. kind_of c = FILLER \<longrightarrow> \<not> flipped c)) \<and>
   (\<forall>clips. build_nogui src gs = Inr clips \<longrightarrow>
      map flipped (contents clips) = map (\<lambda>g. noteNum g mod 2 = 0) gs \<and>
      (\<forall>c\<in>set clips. kind_of c = FILLER \<longrightarrow> \<not> flipped c)) \<and>
   (0 < src \<longrightarrow> (\<exists>clips. build src gs = Some clips) \<and> (\<exists>clips. build_nogui src gs = Inr clips))"
proof (intro conjI allI impI)
  fix clips assume "build src gs = Some clips"
  then obtain b' where "build_from src builder_init gs = Some b'" "videoClips b' = clips"
    by (auto simp: build_Some)
  then show "map flipped (contents clips) = map (\<lambda>g. noteNum g mod 2 = 0) gs"
    using build_from_flips[of src builder_init gs b']
    by (simp add: builder_init_def contents_Nil)
next
  fix clips assume "build_nogui src gs = Inr clips"
  then obtain b' where "build_from_nogui src builder_init gs = Inr b'" "videoClips b' = clips"
    by (auto simp: build_nogui_Inr)
  then show "map flipped (contents clips) = map (\<lambda>g. noteNum g mod 2 = 0) gs"
    using build_from_nogui_flips[of src builder_init gs b']
    by (simp add: builder_init_def contents_Nil)
next
  fix clips assume "build src gs = Some clips"
  show "\<forall>c\<in>set clips. kind_of c = FILLER \<longrightarrow> \<not> flipped c"
    using filler_not_flipped by blast
next
  fix clips assume "build_nogui src gs = Inr clips"
  show "\<forall>c\<in>set clips. kind_of c = FILLER \<longrightarrow> \<not> flipped c"
    using filler_not_flipped by blast
next
  assume "0 < src"
  then show "\<exists>clips. build src gs = Some clips"
    using build_from_total[of src builder_init gs] by (auto simp: build_Some)
next
  assume "0 < src"
  then have "src \<noteq> 0" by simp
  then show "\<exists>clips. build_nogui src gs = Inr clips"
    using build_from_nogui_total[of src builder_init gs] by (auto simp: build_nogui_Inr)
qed

theorem flip_follows_group_index_witness:
  "build 5 [\<lparr>noteNum = 2, startTime = 1, endTime = 2\<rparr>, \<lparr>noteNum = 5, startTime = 3, endTime = 4\<rparr>] =
     Some [ColorClip 1, FlipLR (Subclip SourceClip 0 1), ColorClip 1, Subclip SourceClip 0 1] \<and>
   map flipped (contents
     [ColorClip 1, FlipLR (Subclip SourceClip 0 1), ColorClip 1, Subclip SourceClip 0 1]) =
     [True, False]"
proof -
  let ?gs = "[\<lparr>noteNum = 2, startTime = 1, endTime = 2\<rparr>, \<lparr>noteNum = 5, startTime = 3, endTime = 4\<rparr>]"
  let ?clips = "[ColorClip 1, FlipLR (Subclip SourceClip 0 1), ColorClip 1, Subclip SourceClip 0 1]"
  have b: "build 5 ?gs = Some ?clips"
    by (simp add: build_simps)
  from flip_follows_group_index[of 5 ?gs]
  have "\<forall>clips. build 5 ?gs = Some clips \<longrightarrow>
      map flipped (contents clips) = map (\<lambda>g. noteNum g mod 2 = 0) ?gs \<and>
      (\<forall>c\<in>set clips. kind_of c = FILLER \<longrightarrow> \<not> flipped c)"
    by (rule conjunct1)
  with b have "map flipped (contents ?clips) = map (\<lambda>g. noteNum g mod 2 = 0) ?gs"
    by blast
  then have "map flipped (contents ?clips) = [True, False]" by simp
  with b show ?thesis by (rule conjI)
qed

section \<open>The timeline of groups that do not overlap\<close>







text \<open>The definitions that evaluate the extraction on a given list of messages.\<close>

lemmas extract_simps = extractNotes_def extractNotes_nogui_def sortedNotes_def scan_msgs_def
  scan_init_def note_end_def sweep_def group_step_def new_group_def sweep_init_def Let_def



section \<open>Claims about the content clip of a group\<close>

text \<open>
  Claim C2 as stated fails: a note that ends when it starts gives a group of content
  duration 0, and both builders emit a content clip of duration 0 for it.
\<close>

theorem zero_length_content_counterexample:
  "fst (extractNotes ''in.mid'' [NoteOn 60 64 2, NoteOff 60 0 0] (1/10) []) =
     [\<lparr>noteNum = 1, startTime = 2, endTime = 2\<rparr>] \<and>
   build 1 [\<lparr>noteNum = 1, startTime = 2, endTime = 2\<rparr>] =
     Some [ColorClip 2, Subclip SourceClip 0 0] \<and>
   build_nogui 1 [\<lparr>noteNum = 1, startTime = 2, endTime = 2\<rparr>] =
     Inr [ColorClip 2, Subclip SourceClip 0 0] \<and>
   kind_of (Subclip SourceClip 0 0) = CONTENT \<and>
   clip_duration 1 (Subclip SourceClip 0 0) = 0"
  by (simp add: extract_simps build_simps build_nogui_simps)

text \<open>
  Claim C2, amended. For a grouped event whose content duration \<open>d\<close> is 0 or less and a
  positive source duration, both builders still emit exactly one content clip for the
  group, after the filler if there is one: the subclip of the source from 0 to \<open>d\<close>,
  flipped when the group's number is even. The cursor moves to the group's end. When
  the group ends where it starts, that clip has duration 0.
\<close>

theorem nonpositive_content_is_emitted:
  fixes g :: grouped_event and b :: builder and src :: real
  defines "c \<equiv> flip_even (noteNum g) (Subclip SourceClip 0 (endTime g - startTime g))"
  assumes "endTime g - startTime g \<le> 0" "0 < src"
  shows "add_event src b g = Some \<lparr>videoClips = add_gap b g @ [c], currentPos = endTime g\<rparr> \<and>
         add_event_nogui src b g = Inr \<lparr>videoClips = add_gap b g @ [c], currentPos = endTime g\<rparr> \<and>
         kind_of c = CONTENT \<and>
         contents (add_gap b g @ [c]) = contents (videoClips b) @ [c] \<and>
         (endTime g = startTime g \<longrightarrow> clip_duration src c = 0)"
proof -
  have ns: "\<not> src < endTime g - startTime g" using assms(2,3) by simp
  have k: "kind_of c = CONTENT" by (simp add: c_def flip_even_def)
  have "add_event src b g = Some \<lparr>videoClips = add_gap b g @ [c], currentPos = endTime g\<rparr>"
    using ns by (simp add: add_event_def noteClip_def Let_def c_def)
  moreover have "add_event_nogui src b g = Inr \<lparr>videoClips = add_gap b g @ [c], currentPos = endTime g\<rparr>"
    using ns by (simp add: add_event_nogui_def noteClip_nogui_def Let_def c_def)
  moreover have "contents (add_gap b g @ [c]) = contents (videoClips b) @ [c]"
    using k by (simp add: contents_snoc contents_add_gap)
  moreover have "endTime g = startTime g \<longrightarrow> clip_duration src c = 0"
    by (simp add: c_def flip_even_duration)
  ultimately show ?thesis using k by blast
qed

theorem nonpositive_content_is_emitted_witness:
  "add_event 1 \<lparr>videoClips = [], currentPos = 0\<rparr> \<lparr>noteNum = 2, startTime = 2, endTime = 2\<rparr> =
     Some \<lparr>videoClips = [ColorClip 2, FlipLR (Subclip SourceClip 0 0)], currentPos = 2\<rparr> \<and>
   clip_duration 1 (FlipLR (Subclip SourceClip 0 0)) = 0"
  using nonpositive_content_is_emitted[of "\<lparr>noteNum = 2, startTime = 2, endTime = 2\<rparr>" 1
      "\<lparr>videoClips = [], currentPos = 0\<rparr>"]
  by (simp add: add_gap_def flip_even_def)

text \<open>
  Claim C5. For a grouped event of content duration \<open>d > 0\<close>: when the source lasts
  at least \<open>d\<close>, both builders add exactly one content clip, the first \<open>d\<close> seconds of
  the source (flipped when the group's number is even), a trimmed clip of duration \<open>d\<close>;
  and whenever a builder returns, the clip it added is bounced (\<^verbatim>\<open>midisync.py\<close>) or
  looped (\<^verbatim>\<open>midisync_nogui.py\<close>) exactly when the source is shorter than \<open>d\<close>, and
  trimmed otherwise.
\<close>

theorem trim_when_source_covers:
  fixes g :: grouped_event and b :: builder and src :: real
  defines "d \<equiv> endTime g - startTime g"
  defines "c \<equiv> flip_even (noteNum g) (Subclip SourceClip 0 (endTime g - startTime g))"
  assumes "0 < d"
  shows "(d \<le> src \<longrightarrow>
           add_event src b g = Some \<lparr>videoClips = add_gap b g @ [c], currentPos = endTime g\<rparr> \<and>
           add_event_nogui src b g = Inr \<lparr>videoClips = add_gap b g @ [c], currentPos = endTime g\<rparr> \<and>
           contents (add_gap b g @ [c]) = contents (videoClips b) @ [c] \<and>
           kind_of c = CONTENT \<and> sourceStyle c = Some TRIM \<and> clip_duration src c = d) \<and>
         (\<forall>b'. add_event src b g = Some b' \<longrightarrow>
           sourceStyle (last (videoClips b')) = Some (if src < d then BOUNCE else TRIM)) \<and>
         (\<forall>b'. add_event_nogui src b g = Inr b' \<longrightarrow>
           sourceStyle (last (videoClips b')) = Some (if src < d then LOOP else TRIM))"
proof (intro conjI impI allI)
  assume le: "d \<le> src"
  then have ns: "\<not> src < endTime g - startTime g" by (simp add: d_def)
  show "add_event src b g = Some \<lparr>videoClips = add_gap b g @ [c], currentPos = endTime g\<rparr>"
    using ns by (simp add: add_event_def noteClip_def Let_def c_def)
  show "add_event_nogui src b g = Inr \<lparr>videoClips = add_gap b g @ [c], currentPos = endTime g\<rparr>"
    using ns by (simp add: add_event_nogui_def noteClip_nogui_def Let_def c_def)
  show k: "kind_of c = CONTENT" by (simp add: c_def flip_even_def)
  show "contents (add_gap b g @ [c]) = contents (videoClips b) @ [c]"
    using k by (simp add: contents_snoc contents_add_gap)
  show "sourceStyle c = Some TRIM" by (simp add: c_def flip_even_style)
  show "clip_duration src c = d" using assms(3) by (simp add: c_def d_def flip_even_duration)
next
  fix b' assume "add_event src b g = Some b'"
  from add_event_result[OF this] obtain c' where
    c': "noteClip src (endTime g - startTime g) = Some c'"
        "videoClips b' = add_gap b g @ [flip_even (noteNum g) c']"
    by blast
  from noteClip_shape[OF c'(1)] show
    "sourceStyle (last (videoClips b')) = Some (if src < d then BOUNCE else TRIM)"
    using c'(2) by (simp add: flip_even_style d_def)
next
  fix b' assume "add_event_nogui src b g = Inr b'"
  from add_event_nogui_result[OF this] obtain c' where
    c': "noteClip_nogui src (endTime g - startTime g) = Inr c'"
        "videoClips b' = add_gap b g @ [flip_even (noteNum g) c']"
    by blast
  from noteClip_nogui_shape[OF c'(1)] show
    "sourceStyle (last (videoClips b')) = Some (if src < d then LOOP else TRIM)"
    using c'(2) by (simp add: flip_even_style d_def)
qed

theorem trim_when_source_covers_witness:
  "add_event 5 \<lparr>videoClips = [], currentPos = 0\<rparr> \<lparr>noteNum = 1, startTime = 0, endTime = 3\<rparr> =
     Some \<lparr>videoClips = [Subclip SourceClip 0 3], currentPos = 3\<rparr> \<and>
   sourceStyle (Subclip SourceClip 0 3) = Some TRIM \<and>
   clip_duration 5 (Subclip SourceClip 0 3) = 3"
  using trim_when_source_covers[of "\<lparr>noteNum = 1, startTime = 0, endTime = 3\<rparr>" 5
      "\<lparr>videoClips = [], currentPos = 0\<rparr>"]
  by (simp add: add_gap_def flip_even_def)

section \<open>Claims about the extraction\<close>

text \<open>
  Claim C8. The pass over the messages has no error result, and the two unmatched cases
  change nothing but what the claim says. A note end (a \<^verbatim>\<open>note_off\<close>, or a \<^verbatim>\<open>note_on\<close> of
  velocity 0) for a pitch with no recorded start only advances the clock: no event is
  emitted and the table is unchanged. A \<^verbatim>\<open>note_on\<close> of positive velocity records the
  current time for its pitch and emits nothing; what was recorded for that pitch before
  has no effect on the rest of the pass, which runs as if the pitch had not been active;
  and a note end that follows emits the interval from the second start.
\<close>

theorem unmatched_events_are_absorbed:
  "(activeNotes s n = None \<longrightarrow>
      scan_msg s (NoteOff n v dt) = s\<lparr>currentTime := currentTime s + dt\<rparr> \<and>
      scan_msg s (NoteOn n 0 dt) = s\<lparr>currentTime := currentTime s + dt\<rparr>) \<and>
   (0 < v \<longrightarrow>
      activeNotes (scan_msg s (NoteOn n v dt)) n = Some (currentTime s + dt) \<and>
      noteEvents (scan_msg s (NoteOn n v dt)) = noteEvents s \<and>
      scan_msgs (s\<lparr>activeNotes := (activeNotes s)(n \<mapsto> t0)\<rparr>) (NoteOn n v dt # rest) =
        scan_msgs (s\<lparr>activeNotes := (activeNotes s)(n := None)\<rparr>) (NoteOn n v dt # rest) \<and>
      noteEvents (scan_msgs s [NoteOn n v dt, NoteOff n w dt']) =
        noteEvents s @
          [\<lparr>pitch = n, ev_start = currentTime s + dt, ev_end = currentTime s + dt + dt'\<rparr>])"
  by (simp add: note_end_def scan_msgs_def Let_def)

theorem unmatched_events_are_absorbed_witness:
  "scan_msg scan_init (NoteOff 60 0 1) = scan_init\<lparr>currentTime := 1\<rparr> \<and>
   noteEvents (scan_msgs (scan_init\<lparr>activeNotes := [60 \<mapsto> 0]\<rparr>) [NoteOn 60 64 2, NoteOff 60 0 3]) =
     [\<lparr>pitch = 60, ev_start = 2, ev_end = 5\<rparr>]"
proof -
  let ?s = "scan_init\<lparr>activeNotes := [60 \<mapsto> 0]\<rparr>"
  have a: "activeNotes scan_init 60 = None" by (simp add: scan_init_def)
  have v: "(0::int) < 64" by simp
  from unmatched_events_are_absorbed[where s = scan_init and n = 60 and v = 0 and dt = 1] a
  have "scan_msg scan_init (NoteOff 60 0 1) = scan_init\<lparr>currentTime := currentTime scan_init + 1\<rparr>"
    by blast
  then have 1: "scan_msg scan_init (NoteOff 60 0 1) = scan_init\<lparr>currentTime := 1\<rparr>"
    by (simp add: scan_init_def)
  from unmatched_events_are_absorbed[where s = ?s and n = 60 and v = 64 and dt = 2
      and w = 0 and dt' = 3] v
  have "noteEvents (scan_msgs ?s [NoteOn 60 64 2, NoteOff 60 0 3]) =
     noteEvents ?s @ [\<lparr>pitch = 60, ev_start = currentTime ?s + 2, ev_end = currentTime ?s + 2 + 3\<rparr>]"
    by blast
  then have 2: "noteEvents (scan_msgs ?s [NoteOn 60 64 2, NoteOff 60 0 3]) =
     [\<lparr>pitch = 60, ev_start = 2, ev_end = 5\<rparr>]"
    by (simp add: scan_init_def)
  from 1 2 show ?thesis by (rule conjI)
qed

text \<open>
  Claim C9. The grouped events that \<^verbatim>\<open>extractNotes\<close> returns are a function of the
  messages and the threshold alone: they do not depend on the console it prints to nor
  on the path it prints, so a second run, started in the console the first one left,
  returns the same list. They are the grouping of the sorted notes.
\<close>

theorem extraction_is_deterministic:
  "fst (extractNotes p mid th c1) = fst (extractNotes p' mid th c2) \<and>
   fst (extractNotes_nogui p mid th c1) = fst (extractNotes_nogui p' mid th c2) \<and>
   fst (extractNotes p mid th (snd (extractNotes p mid th c1))) = fst (extractNotes p mid th c1) \<and>
   fst (extractNotes_nogui p mid th (snd (extractNotes_nogui p mid th c1))) =
     fst (extractNotes_nogui p mid th c1) \<and>
   fst (extractNotes p mid th c1) = groupEvents th (sortedNotes mid)"
  by (simp add: extractNotes_def extractNotes_nogui_def groupEvents_def Let_def)

theorem extraction_is_deterministic_witness:
  "fst (extractNotes ''a.mid'' [NoteOn 60 64 0, NoteOff 60 0 1] (1/10) []) =
   fst (extractNotes ''b.mid'' [NoteOn 60 64 0, NoteOff 60 0 1] (1/10) [Blank])"
  by (rule extraction_is_deterministic[THEN conjunct1])

lemma trim_builders_agree:
  "\<forall>g\<in>set gs. \<not> src < endTime g - startTime g \<Longrightarrow>
   (build_from src b gs = Some b') = (build_from_nogui src b gs = Inr b')"
proof (induction gs arbitrary: b)
  case Nil
  show ?case by simp
next
  case (Cons g gs)
  from Cons.prems have ns: "\<not> src < endTime g - startTime g"
    and rest: "\<forall>g\<in>set gs. \<not> src < endTime g - startTime g" by simp_all
  define b1 where "b1 = \<lparr>videoClips = add_gap b g @
      [flip_even (noteNum g) (Subclip SourceClip 0 (endTime g - startTime g))],
      currentPos = endTime g\<rparr>"
  have "add_event src b g = Some b1"
    using ns by (simp add: add_event_def noteClip_def Let_def b1_def)
  moreover have "add_event_nogui src b g = Inr b1"
    using ns by (simp add: add_event_nogui_def noteClip_nogui_def Let_def b1_def)
  ultimately show ?case using Cons.IH[OF rest, of b1] by simp
qed

text \<open>
  Claim C10. The two scripts' \<^verbatim>\<open>extractNotes\<close> return the same grouped events for the
  same messages and threshold (they print the path differently). The builders agree as
  well on every list of groups none of which is longer than the source: they differ in
  what they do with a longer group only.
\<close>

theorem extractors_agree:
  "fst (extractNotes p mid th c) = fst (extractNotes_nogui p' mid th c') \<and>
   ((\<forall>g\<in>set gs. \<not> src < endTime g - startTime g) \<longrightarrow>
      (build src gs = Some clips) = (build_nogui src gs = Inr clips))"
proof
  show "fst (extractNotes p mid th c) = fst (extractNotes_nogui p' mid th c')"
    by (simp add: extractNotes_def extractNotes_nogui_def Let_def)
next
  show "(\<forall>g\<in>set gs. \<not> src < endTime g - startTime g) \<longrightarrow>
      (build src gs = Some clips) = (build_nogui src gs = Inr clips)"
  proof
    assume "\<forall>g\<in>set gs. \<not> src < endTime g - startTime g"
    from trim_builders_agree[OF this] show
      "(build src gs = Some clips) = (build_nogui src gs = Inr clips)"
      by (simp add: build_Some build_nogui_Inr)
  qed
qed

theorem extractors_agree_witness:
  "fst (extractNotes ''a.mid'' [NoteOn 60 64 0, NoteOff 60 0 1] (1/10) []) =
   fst (extractNotes_nogui ''a.mid'' [NoteOn 60 64 0, NoteOff 60 0 1] (1/10) []) \<and>
   build 5 [\<lparr>noteNum = 1, startTime = 0, endTime = 1\<rparr>] = Some [Subclip SourceClip 0 1] \<and>
   build_nogui 5 [\<lparr>noteNum = 1, startTime = 0, endTime = 1\<rparr>] = Inr [Subclip SourceClip 0 1]"
proof -
  let ?gs = "[\<lparr>noteNum = 1, startTime = 0, endTime = 1\<rparr>]"
  note t = extractors_agree[where p = "''a.mid''" and p' = "''a.mid''"
      and mid = "[NoteOn 60 64 0, NoteOff 60 0 1]" and th = "1/10" and c = "[]" and c' = "[]"
      and gs = ?gs and src = 5 and clips = "[Subclip SourceClip 0 1]"]
  have h: "\<forall>g\<in>set ?gs. \<not> (5::real) < endTime g - startTime g" by simp
  have b: "build 5 ?gs = Some [Subclip SourceClip 0 1]" by (simp add: build_simps)
  from t have 1: "fst (extractNotes ''a.mid'' [NoteOn 60 64 0, NoteOff 60 0 1] (1/10) []) =
   fst (extractNotes_nogui ''a.mid'' [NoteOn 60 64 0, NoteOff 60 0 1] (1/10) [])"
    by (rule conjunct1)
  from t h b have 2: "build_nogui 5 ?gs = Inr [Subclip SourceClip 0 1]" by blast
  from 1 b 2 show ?thesis by blast
qed

section \<open>Claims about the configuration\<close>

lemma build_from_nogui_length:
  "build_from_nogui src b gs = Inr b' \<Longrightarrow>
   length (videoClips b) + length gs \<le> length (videoClips b')"
proof (induction gs arbitrary: b)
  case Nil
  then show ?case by simp
next
  case (Cons g gs)
  from Cons.prems obtain b1 where b1: "add_event_nogui src b g = Inr b1" "build_from_nogui src b1 gs = Inr b'"
    by (cases "add_event_nogui src b g") simp_all
  from add_event_nogui_result[OF b1(1)] have "length (videoClips b) < length (videoClips b1)"
    by (auto simp: add_gap_def)
  then show ?case using Cons.IH[OF b1(2)] by simp
qed

lemma createVideo_nogui_runs:
  assumes "0 < src"
  shows "(fst (extractNotes_nogui p mid th console) = [] \<longrightarrow>
            fst (createVideo_nogui p mid src th fps console) = NoNotesFound) \<and>
         (fst (extractNotes_nogui p mid th console) \<noteq> [] \<longrightarrow>
            (\<exists>clips. build_nogui src (fst (extractNotes_nogui p mid th console)) = Inr clips \<and>
               clips \<noteq> [] \<and>
               fst (createVideo_nogui p mid src th fps console) = Written clips fps))"
proof (intro conjI impI)
  assume "fst (extractNotes_nogui p mid th console) = []"
  then show "fst (createVideo_nogui p mid src th fps console) = NoNotesFound"
    by (cases "extractNotes_nogui p mid th console") (simp add: createVideo_nogui_def)
next
  let ?gs = "fst (extractNotes_nogui p mid th console)"
  assume ne: "?gs \<noteq> []"
  have "src \<noteq> 0" using assms by simp
  from build_from_nogui_total[OF this, of builder_init ?gs] obtain b' where
    b': "build_from_nogui src builder_init ?gs = Inr b'" ..
  then have bn: "build_nogui src ?gs = Inr (videoClips b')" by (simp add: build_nogui_Inr)
  from build_from_nogui_length[OF b'] ne have nonempty: "videoClips b' \<noteq> []"
    by (cases ?gs) auto
  have "fst (createVideo_nogui p mid src th fps console) = Written (videoClips b') fps"
    using ne bn by (cases "extractNotes_nogui p mid th console") (simp add: createVideo_nogui_def)
  with bn nonempty show "\<exists>clips. build_nogui src ?gs = Inr clips \<and> clips \<noteq> [] \<and>
               fst (createVideo_nogui p mid src th fps console) = Written clips fps"
    by blast
qed

text \<open>
  The only exception that the builder of \<^verbatim>\<open>midisync_nogui.py\<close> raises is the division by
  a source duration of zero, so \<^verbatim>\<open>createVideo\<close> ends neither with the usage message nor
  with a \<^verbatim>\<open>ValueError\<close>.
\<close>

lemma build_from_nogui_error:
  "build_from_nogui src b gs = Inl e \<Longrightarrow> e = ZeroDivisionError"
proof (induction gs arbitrary: b)
  case Nil
  then show ?case by simp
next
  case (Cons g gs)
  show ?case
  proof (cases "add_event_nogui src b g")
    case (Inl e')
    then have "e' = ZeroDivisionError"
      by (auto simp: add_event_nogui_def noteClip_nogui_def Let_def split: if_splits sum.splits)
    with Inl Cons.prems show ?thesis by simp
  next
    case (Inr b1)
    with Cons.prems have "build_from_nogui src b1 gs = Inl e" by simp
    then show ?thesis by (rule Cons.IH)
  qed
qed

lemma createVideo_nogui_outcome:
  "fst (createVideo_nogui p mid src th fps console) \<noteq> UsageExit \<and>
   fst (createVideo_nogui p mid src th fps console) \<noteq> Raised ValueError"
proof (cases "extractNotes_nogui p mid th console")
  case (Pair gs c1)
  show ?thesis
  proof (cases "build_from_nogui src builder_init gs")
    case (Inl e)
    then have "e = ZeroDivisionError" by (rule build_from_nogui_error)
    with Inl Pair show ?thesis by (simp add: createVideo_nogui_def build_nogui_def)
  next
    case (Inr b')
    with Pair show ?thesis by (simp add: createVideo_nogui_def build_nogui_def)
  qed
qed

text \<open>
  Claim C3 as stated fails: no configuration value is checked. Run with the frame rate
  30 and the chord threshold -1, \<^verbatim>\<open>midisync_nogui.py\<close> extracts the one note of the file
  and builds its clip.
\<close>

theorem nonpositive_configuration_counterexample:
  "fst (main_nogui
     \<lparr>load_midi = (\<lambda>path. [NoteOn 60 64 0, NoteOff 60 0 1]),
      load_clip = (\<lambda>path. 5),
      py_int = (\<lambda>s. if s = ''30'' then Some 30 else None),
      py_float = (\<lambda>s. if s = ''-1'' then Some (- 1) else None)\<rparr>
     [''midisync_nogui.py'', ''in.mid'', ''clip.mp4'', ''out.mp4'', ''30'', ''-1'']
     []) = Written [Subclip SourceClip 0 1] 30"
  by (simp add: main_nogui_def createVideo_nogui_def extract_simps build_nogui_simps)

text \<open>
  Claim C3, amended. No configuration value is checked for its sign. \<^verbatim>\<open>createVideo\<close> of
  \<^verbatim>\<open>midisync_nogui.py\<close> runs with every chord threshold and every frame rate, positive or
  not: for a positive source duration it stops with "No notes found" when the extraction
  is empty, and otherwise builds a non-empty clip list and hands it to the writer with
  the frame rate it was given. The command line ends the run before \<^verbatim>\<open>createVideo\<close> is
  called in exactly two cases: with the usage message, exactly when there are fewer than
  three arguments, and with a \<^verbatim>\<open>ValueError\<close>, exactly when there are three or more and a
  frame rate or a threshold is given that \<^verbatim>\<open>int\<close> or \<^verbatim>\<open>float\<close> does not parse. Whatever
  numbers the two parse to, or their defaults 30 and 0.1, are passed on unchecked.
\<close>

theorem configuration_is_not_validated:
  assumes "0 < src"
  shows "(fst (extractNotes_nogui p mid th console) = [] \<longrightarrow>
            fst (createVideo_nogui p mid src th fps console) = NoNotesFound) \<and>
         (fst (extractNotes_nogui p mid th console) \<noteq> [] \<longrightarrow>
            (\<exists>clips. build_nogui src (fst (extractNotes_nogui p mid th console)) = Inr clips \<and>
               clips \<noteq> [] \<and>
               fst (createVideo_nogui p mid src th fps console) = Written clips fps)) \<and>
         ((fst (main_nogui E argv console) = UsageExit) = (length argv < 4)) \<and>
         ((fst (main_nogui E argv console) = Raised ValueError) =
            (4 \<le> length argv \<and>
             ((4 < length argv \<and> py_int E (argv ! 4) = None) \<or>
              (5 < length argv \<and> py_float E (argv ! 5) = None)))) \<and>
         (4 \<le> length argv \<longrightarrow>
            (if length argv > 4 then py_int E (argv ! 4) else Some 30) = Some fps \<longrightarrow>
            (if length argv > 5 then py_float E (argv ! 5) else Some (1/10)) = Some th \<longrightarrow>
            main_nogui E argv console =
              createVideo_nogui (argv ! 1) (load_midi E (argv ! 1)) (load_clip E (argv ! 2))
                th fps console)"
proof -
  have cv: "fst (createVideo_nogui q m s t f console) \<noteq> UsageExit"
           "fst (createVideo_nogui q m s t f console) \<noteq> Raised ValueError" for q m s t f
    using createVideo_nogui_outcome by simp_all
  have u: "(fst (main_nogui E argv console) = UsageExit) = (length argv < 4)"
    using cv by (auto simp: main_nogui_def split: option.splits)
  have v: "(fst (main_nogui E argv console) = Raised ValueError) =
            (4 \<le> length argv \<and>
             ((4 < length argv \<and> py_int E (argv ! 4) = None) \<or>
              (5 < length argv \<and> py_float E (argv ! 5) = None)))"
    using cv by (auto simp: main_nogui_def split: option.splits if_splits)
  have m: "4 \<le> length argv \<longrightarrow>
            (if length argv > 4 then py_int E (argv ! 4) else Some 30) = Some fps \<longrightarrow>
            (if length argv > 5 then py_float E (argv ! 5) else Some (1/10)) = Some th \<longrightarrow>
            main_nogui E argv console =
              createVideo_nogui (argv ! 1) (load_midi E (argv ! 1)) (load_clip E (argv ! 2))
                th fps console"
    by (simp add: main_nogui_def)
  note r = createVideo_nogui_runs[OF assms, of p mid th console fps]
  show ?thesis
    by (rule conjI[OF conjunct1[OF r] conjI[OF conjunct2[OF r] conjI[OF u conjI[OF v m]]]])
qed

theorem configuration_is_not_validated_witness:
  "fst (createVideo_nogui ''in.mid'' [NoteOn 60 64 0, NoteOff 60 0 1] 5 (-1) 0 []) =
     Written [Subclip SourceClip 0 1] 0 \<and>
   fst (main_nogui
     \<lparr>load_midi = (\<lambda>path. [NoteOn 60 64 0, NoteOff 60 0 1]),
      load_clip = (\<lambda>path. 5),
      py_int = (\<lambda>s. if s = ''30'' then Some 30 else None),
      py_float = (\<lambda>s. if s = ''-1'' then Some (- 1) else None)\<rparr>
     [''midisync_nogui.py'', ''in.mid'', ''clip.mp4'', ''out.mp4'', ''29.97'']
     []) = Raised ValueError"
proof -
  let ?mid = "[NoteOn 60 64 0, NoteOff 60 0 1]"
  let ?gs = "fst (extractNotes_nogui ''in.mid'' ?mid (-1) [])"
  let ?E = "\<lparr>load_midi = (\<lambda>path. [NoteOn 60 64 0, NoteOff 60 0 1]),
      load_clip = (\<lambda>path. 5),
      py_int = (\<lambda>s. if s = ''30'' then Some 30 else None),
      py_float = (\<lambda>s. if s = ''-1'' then Some (- 1) else None)\<rparr>"
  let ?argv = "[''midisync_nogui.py'', ''in.mid'', ''clip.mp4'', ''out.mp4'', ''29.97'']"
  have p: "(0::real) < 5" by simp
  have gs: "?gs = [\<lparr>noteNum = 1, startTime = 0, endTime = 1\<rparr>]"
    by (simp add: extract_simps)
  then have ne: "?gs \<noteq> []" by simp
  note t = configuration_is_not_validated[OF p, where p = "''in.mid''" and mid = ?mid
      and th = "-1" and console = "[]" and fps = 0 and E = ?E and argv = ?argv]
  from t have "?gs \<noteq> [] \<longrightarrow>
      (\<exists>clips. build_nogui 5 ?gs = Inr clips \<and> clips \<noteq> [] \<and>
         fst (createVideo_nogui ''in.mid'' ?mid 5 (-1) 0 []) = Written clips 0)"
    by (rule conjunct1[OF conjunct2])
  with ne obtain clips where c: "build_nogui 5 ?gs = Inr clips"
      "fst (createVideo_nogui ''in.mid'' ?mid 5 (-1) 0 []) = Written clips 0"
    by blast
  have "build_nogui 5 ?gs = Inr [Subclip SourceClip 0 1]"
    by (simp add: gs build_nogui_simps)
  with c(1) have "clips = [Subclip SourceClip 0 1]" by simp
  with c(2) have run: "fst (createVideo_nogui ''in.mid'' ?mid 5 (-1) 0 []) =
     Written [Subclip SourceClip 0 1] 0" by simp
  from t have "(fst (main_nogui ?E ?argv []) = Raised ValueError) =
            (4 \<le> length ?argv \<and>
             ((4 < length ?argv \<and> py_int ?E (?argv ! 4) = None) \<or>
              (5 < length ?argv \<and> py_float ?E (?argv ! 5) = None)))"
    by (rule conjunct1[OF conjunct2[OF conjunct2[OF conjunct2]]])
  then have "fst (main_nogui ?E ?argv []) = Raised ValueError" by simp
  with run show ?thesis by simp
qed

end
